theory Spec2Isabelle
  imports Main "HOL-Library.Multiset"
begin

section \<open>Data model\<close>

text \<open>
  The playlist service keeps the playlist in a two-column sheet: the first row is the
  header, every later row is \<open>[Song UUID, Selected]\<close>. A row is the list of its cells.
\<close>

type_synonym row = "string list"

text \<open>\<^verbatim>\<open>interface PlaylistItem { songId: string; selected: boolean; order: number }\<close>\<close>

record PlaylistItem =
  songId :: string
  selected :: bool
  order :: int

text \<open>The profile object built by \<^verbatim>\<open>handleCredentialResponse\<close>; only its presence matters.\<close>

record user =
  user_id :: string
  email :: string
  user_name :: string
  picture :: string

text \<open>
  What \<^verbatim>\<open>await response.json()\<close> gives. \<open>Malformed\<close> stands for the bodies on which the
  reader's \<^verbatim>\<open>try\<close> block throws: text that is not JSON, the value \<^verbatim>\<open>null\<close>, a \<^verbatim>\<open>values\<close>
  member that is a number, a string or an object. \<open>Values v\<close> is an object whose \<^verbatim>\<open>values\<close>
  member is absent (\<open>None\<close>) or a list of rows of strings, as the source types it
  (\<^verbatim>\<open>row: string[]\<close>).
\<close>

datatype json = Malformed | Values "row list option"

record response =
  status :: nat
  body :: json

text \<open>\<^verbatim>\<open>response.ok\<close>: the status is in the range 200 to 299.\<close>

definition ok :: "response \<Rightarrow> bool" where
  "ok r = (200 \<le> status r \<and> status r \<le> 299)"

text \<open>
  The two requests the service sends: the read of range \<^verbatim>\<open>Playlist!A:B\<close> and the \<^verbatim>\<open>PUT\<close>
  of a value matrix to the same range, with its bearer token.
\<close>

datatype verb = GET | PUT string "row list"

record request =
  startedAt :: int
  meth :: verb

text \<open>
  How the transport treats one call of \<^verbatim>\<open>fetch\<close>: the backing store serves it, the
  promise rejects (network failure), or some given response comes back and the sheet is
  left alone.
\<close>

datatype reply = Serve | Reject | Answer response

text \<open>
  Every \<^verbatim>\<open>throw\<close> of the service, by its message:
  \<open>Unauthenticated\<close> is \<^verbatim>\<open>'User must be signed in to make changes'\<close>,
  \<open>NoAccessToken\<close> is \<^verbatim>\<open>'No access token available'\<close>,
  \<open>AuthenticationFailed\<close> is the writer's 401, \<open>PermissionDenied\<close> the writer's 403,
  \<open>QuotaOrAccessDenied\<close> the reader's 403, \<open>HttpError\<close> any other status that is not ok,
  \<open>FetchRejected\<close> a rejected \<^verbatim>\<open>fetch\<close>, \<open>JsonError\<close> an exception while the body is read.
\<close>

datatype error =
    Unauthenticated
  | NoAccessToken
  | AuthenticationFailed
  | PermissionDenied
  | QuotaOrAccessDenied
  | HttpError nat
  | FetchRejected
  | JsonError

section \<open>State\<close>

text \<open>The limiter's module-level variable \<^verbatim>\<open>let lastRequestTime = 0\<close>.\<close>

record limiter =
  lastRequestTime :: int

text \<open>
  The state one browser session runs against: the sheet in the backing store, the clock
  read by \<^verbatim>\<open>Date.now()\<close>, the module variables of the authorization module, the replies the
  transport will give to the coming calls of \<^verbatim>\<open>fetch\<close> (none left: the store serves), and
  the calls of \<^verbatim>\<open>fetch\<close> made so far.
  The clock moves only while the limiter sleeps: a call of \<^verbatim>\<open>fetch\<close> takes no time here, and
  nothing is said about the time between two operations, since every fact below holds
  for an arbitrary state.
\<close>

record world = limiter +
  sheet :: "row list"
  clock :: int
  isInitialized :: bool
  currentUser :: "user option"
  accessToken :: "string option"
  script :: "reply list"
  requests :: "request list"

definition RATE_LIMIT_DELAY :: int where
  "RATE_LIMIT_DELAY = 1000"

section \<open>Authorization gate\<close>

text \<open>\<^verbatim>\<open>getAccessToken = () => accessToken\<close>\<close>

definition getAccessToken :: "world \<Rightarrow> string option" where
  "getAccessToken w = accessToken w"

text \<open>JavaScript truthiness of a \<^verbatim>\<open>string | null\<close>: neither \<^verbatim>\<open>null\<close> nor the empty string.\<close>

definition truthy :: "string option \<Rightarrow> bool" where
  "truthy t = (case t of None \<Rightarrow> False | Some s \<Rightarrow> s \<noteq> [])"

text \<open>\<^verbatim>\<open>isGapiReady = () => isInitialized && !!(currentUser && accessToken)\<close>\<close>

definition isGapiReady :: "world \<Rightarrow> bool" where
  "isGapiReady w = (isInitialized w \<and> currentUser w \<noteq> None \<and> truthy (accessToken w))"

section \<open>Transport and backing store\<close>

text \<open>
  Modelled from the spec: the backing store behind \<^verbatim>\<open>fetch\<close>, an external service that is
  not part of the sources. A served read returns the rows of the sheet (no \<^verbatim>\<open>values\<close>
  member when the sheet is empty); a served write is a full-range overwrite that replaces
  the whole sheet by the value matrix sent. Every call is recorded with the time it begins.
\<close>

definition nextReply :: "world \<Rightarrow> reply" where
  "nextReply w = (case script w of [] \<Rightarrow> Serve | x # _ \<Rightarrow> x)"

definition fetch :: "verb \<Rightarrow> world \<Rightarrow> response option \<times> world" where
  "fetch m w =
     (let r = nextReply w;
          w1 = w\<lparr>script := drop 1 (script w),
                 requests := requests w @ [\<lparr>startedAt = clock w, meth = m\<rparr>]\<rparr>
      in case r of
           Reject \<Rightarrow> (None, w1)
         | Answer resp \<Rightarrow> (Some resp, w1)
         | Serve \<Rightarrow>
             (case m of
                GET \<Rightarrow>
                  (Some \<lparr>status = 200,
                         body = Values (if sheet w1 = [] then None else Some (sheet w1))\<rparr>, w1)
              | PUT tok vs \<Rightarrow>
                  (Some \<lparr>status = 200, body = Values None\<rparr>, w1\<lparr>sheet := vs\<rparr>)))"

section \<open>Rate limiter\<close>

text \<open>
  The part of \<^verbatim>\<open>rateLimitedFetch\<close> before its \<^verbatim>\<open>await\<close>: from \<^verbatim>\<open>Date.now()\<close> and
  \<^verbatim>\<open>lastRequestTime\<close>, the timeout to sleep for, or \<open>None\<close> when the branch is not taken.
\<close>

definition waitFor :: "int \<Rightarrow> int \<Rightarrow> int option" where
  "waitFor now lastTime =
     (let timeSinceLastRequest = now - lastTime
      in if timeSinceLastRequest < RATE_LIMIT_DELAY
         then Some (RATE_LIMIT_DELAY - timeSinceLastRequest) else None)"

text \<open>
  One caller at a time: the sleep moves the clock on by the timeout, then
  \<^verbatim>\<open>lastRequestTime = Date.now()\<close> and the call of \<^verbatim>\<open>fetch\<close>.
\<close>

definition rateLimitedFetch :: "verb \<Rightarrow> world \<Rightarrow> response option \<times> world" where
  "rateLimitedFetch m w =
     (let w1 = (case waitFor (clock w) (lastRequestTime w) of
                  None \<Rightarrow> w
                | Some d \<Rightarrow> w\<lparr>clock := clock w + d\<rparr>);
          w2 = w1\<lparr>lastRequestTime := clock w1\<rparr>
      in fetch m w2)"

text \<open>
  Several callers on the one event loop. A page holds the limiter's variable, the due
  times of the callers asleep in \<^verbatim>\<open>setTimeout\<close>, and the times at which calls of \<^verbatim>\<open>fetch\<close>
  began, in the order they began.
\<close>

record page = limiter +
  asleep :: "int list"
  begun :: "int list"

text \<open>The code after the \<^verbatim>\<open>await\<close>, run at time \<open>t\<close>.\<close>

definition resume :: "int \<Rightarrow> page \<Rightarrow> page" where
  "resume t p = p\<lparr>lastRequestTime := t, begun := begun p @ [t]\<rparr>"

text \<open>The timers due by time \<open>t\<close> fire, the earliest first, each at its due time.\<close>

definition wake :: "int \<Rightarrow> page \<Rightarrow> page" where
  "wake t p =
     foldl (\<lambda>q u. resume u q)
       (p\<lparr>asleep := filter (\<lambda>u. \<not> u \<le> t) (asleep p)\<rparr>)
       (sort (filter (\<lambda>u. u \<le> t) (asleep p)))"

text \<open>
  A caller invokes \<^verbatim>\<open>rateLimitedFetch\<close> at time \<open>t\<close>: it either goes on at once or sets a
  timer and yields.
\<close>

definition invoke :: "int \<Rightarrow> page \<Rightarrow> page" where
  "invoke t p =
     (case waitFor t (lastRequestTime p) of
        None \<Rightarrow> resume t p
      | Some d \<Rightarrow> p\<lparr>asleep := asleep p @ [t + d]\<rparr>)"

text \<open>
  The page runs the invocations made at the given times (in the order given), firing
  the timers that come due in between, and at the end every timer still pending.
\<close>

fun run :: "int list \<Rightarrow> page \<Rightarrow> page" where
  "run [] p = foldl (\<lambda>q u. resume u q) (p\<lparr>asleep := []\<rparr>) (sort (asleep p))"
| "run (t # ts) p = run ts (invoke t (wake t p))"

definition freshPage :: page where
  "freshPage = \<lparr>lastRequestTime = 0, asleep = [], begun = []\<rparr>"

section \<open>Playlist reader\<close>

text \<open>\<^verbatim>\<open>row[i]\<close>: \<open>None\<close> is \<^verbatim>\<open>undefined\<close>, the cell is missing.\<close>

definition cell :: "row \<Rightarrow> nat \<Rightarrow> string option" where
  "cell r i = (if i < length r then Some (r ! i) else None)"

text \<open>
  The object built for one row by the \<^verbatim>\<open>map\<close> callback:
  \<^verbatim>\<open>songId: row[0] || ''\<close>,
  \<^verbatim>\<open>selected: row[1] === 'TRUE' || row[1] === 'true' || row[1] === '1'\<close>,
  \<^verbatim>\<open>order: index\<close>.
\<close>

definition rowToItem :: "row \<Rightarrow> nat \<Rightarrow> PlaylistItem" where
  "rowToItem r index =
     \<lparr>songId = (case cell r 0 of None \<Rightarrow> [] | Some s \<Rightarrow> s),
      selected = (cell r 1 = Some ''TRUE'' \<or> cell r 1 = Some ''true'' \<or> cell r 1 = Some ''1''),
      order = int index\<rparr>"

text \<open>\<^verbatim>\<open>rows.slice(1).map(...).filter(item => item.songId)\<close>\<close>

definition parseRows :: "row list \<Rightarrow> PlaylistItem list" where
  "parseRows rows =
     filter (\<lambda>item. songId item \<noteq> [])
       (map (\<lambda>(index, r). rowToItem r index) (enumerate 0 (drop 1 rows)))"

text \<open>The body of the reader's \<^verbatim>\<open>try\<close> block.\<close>

definition getPlaylistData_try :: "world \<Rightarrow> (error + PlaylistItem list) \<times> world" where
  "getPlaylistData_try w =
     (case rateLimitedFetch GET w of
        (None, w') \<Rightarrow> (Inl FetchRejected, w')
      | (Some resp, w') \<Rightarrow>
          if \<not> ok resp then
            (if status resp = 403 then (Inl QuotaOrAccessDenied, w')
             else (Inl (HttpError (status resp)), w'))
          else
            (case body resp of
               Malformed \<Rightarrow> (Inl JsonError, w')
             | Values v \<Rightarrow>
                 (let rows = (case v of None \<Rightarrow> [] | Some rs \<Rightarrow> rs)
                  in (Inr (parseRows rows), w'))))"

text \<open>\<^verbatim>\<open>getPlaylistData\<close>: the \<^verbatim>\<open>catch\<close> logs the error and returns \<^verbatim>\<open>[]\<close>.\<close>

definition getPlaylistData :: "world \<Rightarrow> PlaylistItem list \<times> world" where
  "getPlaylistData w =
     (case getPlaylistData_try w of
        (Inl e, w') \<Rightarrow> ([], w')
      | (Inr items, w') \<Rightarrow> (items, w'))"

section \<open>Playlist writer\<close>

definition header :: row where
  "header = [''Song UUID'', ''Selected'']"

text \<open>\<^verbatim>\<open>item => [item.songId, item.selected ? 'TRUE' : 'FALSE']\<close>\<close>

definition itemToRow :: "PlaylistItem \<Rightarrow> row" where
  "itemToRow item = [songId item, if selected item then ''TRUE'' else ''FALSE'']"

text \<open>
  The constant \<^verbatim>\<open>values\<close> of the writer: the header row, then one row per item of
  \<^verbatim>\<open>[...playlistItems].sort((a, b) => a.order - b.order)\<close> (a stable sort).
\<close>

definition sheetValues :: "PlaylistItem list \<Rightarrow> row list" where
  "sheetValues playlistItems =
     (let sortedItems = sort_key order playlistItems
      in header # map itemToRow sortedItems)"

text \<open>\<^verbatim>\<open>updatePlaylistData\<close>; its \<^verbatim>\<open>catch\<close> logs and rethrows.\<close>

definition updatePlaylistData :: "PlaylistItem list \<Rightarrow> world \<Rightarrow> (error + unit) \<times> world" where
  "updatePlaylistData playlistItems w =
     (if \<not> isGapiReady w then (Inl Unauthenticated, w)
      else
        (case getAccessToken w of
           None \<Rightarrow> (Inl NoAccessToken, w)
         | Some tok \<Rightarrow>
             if tok = [] then (Inl NoAccessToken, w)
             else
               (case rateLimitedFetch (PUT tok (sheetValues playlistItems)) w of
                  (None, w') \<Rightarrow> (Inl FetchRejected, w')
                | (Some resp, w') \<Rightarrow>
                    if \<not> ok resp then
                      (if status resp = 401 then (Inl AuthenticationFailed, w')
                       else if status resp = 403 then (Inl PermissionDenied, w')
                       else (Inl (HttpError (status resp)), w'))
                    else (Inr (), w'))))"

section \<open>Playlist mutator\<close>

text \<open>\<^verbatim>\<open>[...currentPlaylist, newItem]\<close> of \<^verbatim>\<open>addSongToPlaylist\<close>.\<close>

definition addedPlaylist :: "string \<Rightarrow> PlaylistItem list \<Rightarrow> PlaylistItem list" where
  "addedPlaylist sid currentPlaylist =
     currentPlaylist @ [\<lparr>songId = sid, selected = True, order = int (length currentPlaylist)\<rparr>]"

definition addSongToPlaylist :: "string \<Rightarrow> world \<Rightarrow> (error + unit) \<times> world" where
  "addSongToPlaylist sid w =
     (case getPlaylistData w of
        (currentPlaylist, w1) \<Rightarrow> updatePlaylistData (addedPlaylist sid currentPlaylist) w1)"

text \<open>
  \<^verbatim>\<open>updatedPlaylist\<close> of \<^verbatim>\<open>removeSongFromPlaylist\<close>:
  \<^verbatim>\<open>.filter(item => item.songId !== songId).map((item, index) => ({ ...item, order: index }))\<close>
\<close>

definition removedPlaylist :: "string \<Rightarrow> PlaylistItem list \<Rightarrow> PlaylistItem list" where
  "removedPlaylist sid currentPlaylist =
     map (\<lambda>(index, item). item\<lparr>order := int index\<rparr>)
       (enumerate 0 (filter (\<lambda>item. songId item \<noteq> sid) currentPlaylist))"

definition removeSongFromPlaylist :: "string \<Rightarrow> world \<Rightarrow> (error + unit) \<times> world" where
  "removeSongFromPlaylist sid w =
     (case getPlaylistData w of
        (currentPlaylist, w1) \<Rightarrow> updatePlaylistData (removedPlaylist sid currentPlaylist) w1)"

text \<open>
  \<^verbatim>\<open>updatedPlaylist\<close> of \<^verbatim>\<open>toggleSongSelection\<close>:
  \<^verbatim>\<open>.map(item => item.songId === songId ? { ...item, selected: true } : item)\<close>
\<close>

definition markedPlaylist :: "string \<Rightarrow> PlaylistItem list \<Rightarrow> PlaylistItem list" where
  "markedPlaylist sid currentPlaylist =
     map (\<lambda>item. if songId item = sid then item\<lparr>selected := True\<rparr> else item) currentPlaylist"

definition toggleSongSelection :: "string \<Rightarrow> world \<Rightarrow> (error + unit) \<times> world" where
  "toggleSongSelection sid w =
     (case getPlaylistData w of
        (currentPlaylist, w1) \<Rightarrow>
          (case find (\<lambda>item. songId item = sid) currentPlaylist of
             Some existingItem \<Rightarrow>
               if selected existingItem then removeSongFromPlaylist sid w1
               else updatePlaylistData (markedPlaylist sid currentPlaylist) w1
           | None \<Rightarrow> addSongToPlaylist sid w1))"

text \<open>
  \<^verbatim>\<open>updatedPlaylist\<close> of \<^verbatim>\<open>reorderPlaylist\<close>: for each id and its index,
  \<^verbatim>\<open>{ songId, selected: existingItem?.selected ?? true, order: index }\<close>.
\<close>

definition reorderedPlaylist :: "string list \<Rightarrow> PlaylistItem list \<Rightarrow> PlaylistItem list" where
  "reorderedPlaylist reorderedSongIds currentPlaylist =
     map (\<lambda>(index, sid).
            \<lparr>songId = sid,
             selected = (case find (\<lambda>item. songId item = sid) currentPlaylist of
                           None \<Rightarrow> True
                         | Some existingItem \<Rightarrow> selected existingItem),
             order = int index\<rparr>)
       (enumerate 0 reorderedSongIds)"

definition reorderPlaylist :: "string list \<Rightarrow> world \<Rightarrow> (error + unit) \<times> world" where
  "reorderPlaylist reorderedSongIds w =
     (case getPlaylistData w of
        (currentPlaylist, w1) \<Rightarrow>
          updatePlaylistData (reorderedPlaylist reorderedSongIds currentPlaylist) w1)"

text \<open>The value matrices of the \<^verbatim>\<open>PUT\<close> calls made so far, oldest first.\<close>

text \<open>The backing store serves every coming call.\<close>

definition allServed :: "world \<Rightarrow> bool" where
  "allServed w = list_all (\<lambda>r. r = Serve) (script w)"

definition puts :: "world \<Rightarrow> row list list" where
  "puts w = concat (map (\<lambda>q. case meth q of GET \<Rightarrow> [] | PUT tok vs \<Rightarrow> [vs]) (requests w))"

text \<open>
  A read that fails: the promise rejects, the status is not a success, or the body of a
  success cannot be read as rows.
\<close>

definition readFails :: "reply \<Rightarrow> bool" where
  "readFails r =
     (case r of
        Serve \<Rightarrow> False
      | Reject \<Rightarrow> True
      | Answer resp \<Rightarrow> \<not> ok resp \<or> body resp = Malformed)"

text \<open>
  The wording of the specification for the \<open>selected\<close> flag, to compare \<open>rowToItem\<close> with:
  the second column, compared case-insensitively, is one of the tokens \<^verbatim>\<open>"true"\<close> and
  \<^verbatim>\<open>"1"\<close>; a missing column matches neither.
\<close>

definition toLowerCase :: "string \<Rightarrow> string" where
  "toLowerCase s =
     map (\<lambda>c. case map_of (zip ''ABCDEFGHIJKLMNOPQRSTUVWXYZ'' ''abcdefghijklmnopqrstuvwxyz'') c of
                 None \<Rightarrow> c
               | Some d \<Rightarrow> d) s"

definition truthyToken :: "string option \<Rightarrow> bool" where
  "truthyToken col =
     (case col of
        None \<Rightarrow> False
      | Some s \<Rightarrow> toLowerCase s = ''true'' \<or> toLowerCase s = ''1'')"

section \<open>Sample states\<close>

definition sampleUser :: user where
  "sampleUser =
     \<lparr>user_id = ''u1'', email = ''u1@example.org'', user_name = ''U'', picture = ''p''\<rparr>"

text \<open>A signed-in session in front of a sheet with three songs, the second unselected.\<close>

definition sampleWorld :: world where
  "sampleWorld =
     \<lparr>lastRequestTime = 0,
      sheet = [header, [''a'', ''TRUE''], [''b'', ''FALSE''], [''c'', ''TRUE'']],
      clock = 5000, isInitialized = True, currentUser = Some sampleUser,
      accessToken = Some ''token'', script = [], requests = []\<rparr>"

text \<open>The same session before sign-in.\<close>

definition signedOutWorld :: world where
  "signedOutWorld = sampleWorld\<lparr>currentUser := None, accessToken := None\<rparr>"

definition entry :: "string \<Rightarrow> bool \<Rightarrow> int \<Rightarrow> PlaylistItem" where
  "entry sid sel n = \<lparr>songId = sid, selected = sel, order = n\<rparr>"

section \<open>Facts about the transport, the reader and the writer\<close>

lemma rateLimitedFetch_auth:
  "isInitialized (snd (rateLimitedFetch m w)) = isInitialized w"
  "currentUser (snd (rateLimitedFetch m w)) = currentUser w"
  "accessToken (snd (rateLimitedFetch m w)) = accessToken w"
  by (simp_all add: rateLimitedFetch_def fetch_def Let_def
        split: option.splits reply.splits verb.splits)

lemma rateLimitedFetch_script:
  "script (snd (rateLimitedFetch m w)) = drop 1 (script w)"
  by (simp add: rateLimitedFetch_def fetch_def Let_def
        split: option.splits reply.splits verb.splits)

lemma rateLimitedFetch_requests:
  "requests (snd (rateLimitedFetch m w)) =
     requests w @ [\<lparr>startedAt = lastRequestTime (snd (rateLimitedFetch m w)), meth = m\<rparr>]"
  by (simp add: rateLimitedFetch_def fetch_def Let_def
        split: option.splits reply.splits verb.splits)

lemma rateLimitedFetch_gap:
  "lastRequestTime w + RATE_LIMIT_DELAY \<le> lastRequestTime (snd (rateLimitedFetch m w))"
  by (simp add: rateLimitedFetch_def fetch_def Let_def waitFor_def
        split: option.splits reply.splits verb.splits if_splits)

lemma rateLimitedFetch_GET_sheet:
  "sheet (snd (rateLimitedFetch GET w)) = sheet w"
  by (simp add: rateLimitedFetch_def fetch_def Let_def
        split: option.splits reply.splits)

lemma rateLimitedFetch_GET_served:
  "nextReply w = Serve \<Longrightarrow>
   fst (rateLimitedFetch GET w) =
     Some \<lparr>status = 200, body = Values (if sheet w = [] then None else Some (sheet w))\<rparr>"
  by (simp add: rateLimitedFetch_def fetch_def Let_def nextReply_def
        split: option.splits)

lemma rateLimitedFetch_PUT_served:
  "nextReply w = Serve \<Longrightarrow>
   fst (rateLimitedFetch (PUT tok vs) w) = Some \<lparr>status = 200, body = Values None\<rparr> \<and>
   sheet (snd (rateLimitedFetch (PUT tok vs) w)) = vs"
  by (simp add: rateLimitedFetch_def fetch_def Let_def nextReply_def
        split: option.splits)


lemma getPlaylistData_try_world:
  "snd (getPlaylistData_try w) = snd (rateLimitedFetch GET w)"
  by (simp add: getPlaylistData_try_def Let_def split: prod.splits option.splits json.splits)

lemma getPlaylistData_world:
  "snd (getPlaylistData w) = snd (rateLimitedFetch GET w)"
  using getPlaylistData_try_world [of w]
  by (cases "getPlaylistData_try w") (auto simp: getPlaylistData_def split: sum.splits)

lemma getPlaylistData_ready:
  "isGapiReady (snd (getPlaylistData w)) = isGapiReady w"
  by (simp add: getPlaylistData_world isGapiReady_def rateLimitedFetch_auth)

lemma getPlaylistData_sheet:
  "sheet (snd (getPlaylistData w)) = sheet w"
  by (simp add: getPlaylistData_world rateLimitedFetch_GET_sheet)

lemma getPlaylistData_puts:
  "puts (snd (getPlaylistData w)) = puts w"
  by (simp add: getPlaylistData_world puts_def rateLimitedFetch_requests)

lemma getPlaylistData_allServed:
  "allServed w \<Longrightarrow> allServed (snd (getPlaylistData w))"
  by (cases "script w") (simp_all add: getPlaylistData_world allServed_def rateLimitedFetch_script)

lemma allServed_nextReply:
  "allServed w \<Longrightarrow> nextReply w = Serve"
  by (cases "script w") (simp_all add: allServed_def nextReply_def)

lemma parseRows_Nil: "parseRows [] = []"
  by (simp add: parseRows_def)

lemma getPlaylistData_served:
  "nextReply w = Serve \<Longrightarrow> fst (getPlaylistData w) = parseRows (sheet w)"
  using rateLimitedFetch_GET_served [of w]
  by (cases "rateLimitedFetch GET w")
     (simp add: getPlaylistData_def getPlaylistData_try_def ok_def parseRows_Nil)

lemma parseRows_songId:
  "item \<in> set (parseRows rows) \<Longrightarrow> songId item \<noteq> []"
  by (simp add: parseRows_def)

lemma getPlaylistData_songId:
  "item \<in> set (fst (getPlaylistData w)) \<Longrightarrow> songId item \<noteq> []"
  by (auto simp: getPlaylistData_def getPlaylistData_try_def Let_def parseRows_songId
        split: prod.splits sum.splits option.splits json.splits if_splits)

lemma updatePlaylistData_ready:
  assumes "isGapiReady w"
  shows "snd (updatePlaylistData items w) =
           snd (rateLimitedFetch (PUT (the (accessToken w)) (sheetValues items)) w)"
  using assms
  by (auto simp: updatePlaylistData_def isGapiReady_def truthy_def getAccessToken_def
        split: option.splits prod.splits)

lemma updatePlaylistData_puts:
  "isGapiReady w \<Longrightarrow> puts (snd (updatePlaylistData items w)) = puts w @ [sheetValues items]"
  by (simp add: updatePlaylistData_ready puts_def rateLimitedFetch_requests)

lemma updatePlaylistData_served:
  assumes "isGapiReady w" and "nextReply w = Serve"
  shows "fst (updatePlaylistData items w) = Inr ()"
    and "sheet (snd (updatePlaylistData items w)) = sheetValues items"
  using assms rateLimitedFetch_PUT_served [of w "the (accessToken w)" "sheetValues items"]
  by (auto simp: updatePlaylistData_def isGapiReady_def truthy_def getAccessToken_def ok_def
        split: option.splits prod.splits)

lemma updatePlaylistData_keeps_ready:
  "isGapiReady (snd (updatePlaylistData items w)) = isGapiReady w"
  by (cases "isGapiReady w")
     (simp_all add: updatePlaylistData_ready, simp_all add: isGapiReady_def rateLimitedFetch_auth updatePlaylistData_def)

lemma updatePlaylistData_allServed:
  "allServed w \<Longrightarrow> allServed (snd (updatePlaylistData items w))"
proof (cases "isGapiReady w")
  case True
  assume "allServed w"
  then show ?thesis
    by (cases "script w")
       (simp_all add: updatePlaylistData_ready [OF True] allServed_def rateLimitedFetch_script)
next
  case False
  assume "allServed w"
  with False show ?thesis by (simp add: updatePlaylistData_def)
qed

lemma rowToItem_itemToRow:
  "rowToItem (itemToRow x) index = x\<lparr>order := int index\<rparr>"
  by (cases x) (simp add: rowToItem_def itemToRow_def cell_def)

lemma parse_item_rows:
  "\<forall>x\<in>set xs. songId x \<noteq> [] \<Longrightarrow>
   filter (\<lambda>x. songId x \<noteq> [])
     (map (\<lambda>(index, r). rowToItem r index) (enumerate n (map itemToRow xs))) =
   map (\<lambda>(index, x). x\<lparr>order := int index\<rparr>) (enumerate n xs)"
  by (induction xs arbitrary: n) (simp_all add: rowToItem_itemToRow)

lemma parseRows_sheetValues:
  assumes "\<forall>x\<in>set items. songId x \<noteq> []"
  shows "parseRows (sheetValues items) =
           map (\<lambda>(index, x). x\<lparr>order := int index\<rparr>) (enumerate 0 (sort_key order items))"
  using assms by (simp add: parseRows_def sheetValues_def parse_item_rows)

lemma reindex_ident:
  "map order xs = map int [n..<n + length xs] \<Longrightarrow>
   map (\<lambda>(index, x). x\<lparr>order := int index\<rparr>) (enumerate n xs) = xs"
proof (induction xs arbitrary: n)
  case Nil
  then show ?case by simp
next
  case (Cons x xs)
  have "[n..<n + length (x # xs)] = n # [Suc n..<Suc n + length xs]"
    by (simp add: upt_conv_Cons del: upt_Suc)
  with Cons.prems have "map order (x # xs) = map int (n # [Suc n..<Suc n + length xs])"
    by (simp only:)
  then have "order x = int n" and "map order xs = map int [Suc n..<Suc n + length xs]"
    by (simp_all del: upt_Suc)
  with Cons.IH [of "Suc n"] show ?case by simp
qed

lemma sorted_upt_int: "sorted (map int [m..<n])"
  by (simp add: sorted_map strict_mono_on_imp_mono_on sorted_wrt_map)

lemma orders_sorted:
  assumes "mset (map order items) = mset (map int [0..<length items])"
  shows "map order (sort_key order items) = map int [0..<length items]"
proof -
  have "sort (map order items) = map int [0..<length items]"
    using assms sorted_upt_int by (intro properties_for_sort) simp_all
  moreover have "sort (map order items) = map order (sort_key order items)"
    by (intro properties_for_sort) simp_all
  ultimately show ?thesis by simp
qed

lemma rateLimitedFetch_scripted:
  "nextReply w = Reject \<Longrightarrow> fst (rateLimitedFetch m w) = None"
  "nextReply w = Answer resp \<Longrightarrow> fst (rateLimitedFetch m w) = Some resp"
  by (simp_all add: rateLimitedFetch_def fetch_def Let_def nextReply_def split: option.splits)

lemmas sample_defs = sampleWorld_def signedOutWorld_def sampleUser_def entry_def header_def

lemmas run_defs = getPlaylistData_def getPlaylistData_try_def rateLimitedFetch_def fetch_def
  nextReply_def waitFor_def RATE_LIMIT_DELAY_def ok_def parseRows_def rowToItem_def cell_def
  updatePlaylistData_def isGapiReady_def truthy_def getAccessToken_def sheetValues_def
  itemToRow_def puts_def

lemma sampleWorld_read_again:
  "fst (getPlaylistData
      (sampleWorld\<lparr>lastRequestTime := 5000, requests := [\<lparr>startedAt = 5000, meth = GET\<rparr>]\<rparr>)) =
     [entry ''a'' True 0, entry ''b'' False 1, entry ''c'' True 2]"
  by (simp add: run_defs sample_defs)

lemma sampleWorld_read:
  "getPlaylistData sampleWorld =
     ([entry ''a'' True 0, entry ''b'' False 1, entry ''c'' True 2],
      sampleWorld\<lparr>lastRequestTime := 5000, requests := [\<lparr>startedAt = 5000, meth = GET\<rparr>]\<rparr>)"
  by (simp add: run_defs sample_defs)

lemma sampleWorld_ready: "isGapiReady sampleWorld"
  by (simp add: isGapiReady_def truthy_def sample_defs)

lemma write_then_read:
  assumes ready: "isGapiReady w"
    and served: "allServed w"
    and ids: "\<forall>x\<in>set items. songId x \<noteq> []"
  shows "fst (updatePlaylistData items w) = Inr ()"
    and "sheet (snd (updatePlaylistData items w)) = sheetValues items"
    and "fst (getPlaylistData (snd (updatePlaylistData items w))) =
           map (\<lambda>(index, x). x\<lparr>order := int index\<rparr>) (enumerate 0 (sort_key order items))"
proof -
  let ?w' = "snd (updatePlaylistData items w)"
  show written: "fst (updatePlaylistData items w) = Inr ()" "sheet ?w' = sheetValues items"
    using updatePlaylistData_served [OF ready allServed_nextReply [OF served]] by simp_all
  have "nextReply ?w' = Serve"
    by (rule allServed_nextReply [OF updatePlaylistData_allServed [OF served]])
  then have "fst (getPlaylistData ?w') = parseRows (sheetValues items)"
    by (simp add: getPlaylistData_served written)
  then show "fst (getPlaylistData ?w') =
      map (\<lambda>(index, x). x\<lparr>order := int index\<rparr>) (enumerate 0 (sort_key order items))"
    by (simp add: parseRows_sheetValues [OF ids])
qed

section \<open>Round trip through the sheet\<close>

text \<open>
  C1. Round trip: for a signed-in session whose calls the backing store serves, and every
  list of entries with non-empty \<open>songId\<close>s whose \<open>order\<close> values are exactly
  \<open>0 .. n-1\<close>, the write succeeds and the read that follows it returns the entries with
  their ids, flags and order values, in the sequence of their \<open>order\<close> fields; when the
  list is already in that sequence, the read returns the list itself. (That the ids are
  pairwise distinct is not needed.)
\<close>

theorem writer_reader_round_trip:
  assumes ready: "isGapiReady w"
    and served: "allServed w"
    and ids: "\<forall>x\<in>set items. songId x \<noteq> []"
    and orders: "mset (map order items) = mset (map int [0..<length items])"
  shows "fst (updatePlaylistData items w) = Inr () \<and>
         fst (getPlaylistData (snd (updatePlaylistData items w))) = sort_key order items \<and>
         (map order items = map int [0..<length items] \<longrightarrow>
            fst (getPlaylistData (snd (updatePlaylistData items w))) = items)"
proof -
  let ?w' = "snd (updatePlaylistData items w)"
  have "fst (getPlaylistData ?w') =
      map (\<lambda>(index, x). x\<lparr>order := int index\<rparr>) (enumerate 0 (sort_key order items))"
    by (rule write_then_read(3) [OF ready served ids])
  also have "\<dots> = sort_key order items"
    by (rule reindex_ident) (simp add: orders_sorted [OF orders])
  finally have reread: "fst (getPlaylistData ?w') = sort_key order items" .
  have "sort_key order items = items" if "map order items = map int [0..<length items]"
    by (rule sort_key_id_if_sorted) (simp add: that sorted_upt_int)
  with write_then_read(1) [OF ready served ids] reread show ?thesis by simp
qed

theorem writer_reader_round_trip_witness:
  "fst (getPlaylistData (snd (updatePlaylistData
      [entry ''c'' True 2, entry ''a'' True 0, entry ''b'' False 1] sampleWorld))) =
     [entry ''a'' True 0, entry ''b'' False 1, entry ''c'' True 2] \<and>
   fst (getPlaylistData (snd (updatePlaylistData
      [entry ''x'' False 0, entry ''y'' True 1] sampleWorld))) =
     [entry ''x'' False 0, entry ''y'' True 1]"
proof -
  let ?xs = "[entry ''c'' True 2, entry ''a'' True 0, entry ''b'' False 1]"
  let ?ys = "[entry ''x'' False 0, entry ''y'' True 1]"
  have ready: "isGapiReady sampleWorld"
    by (simp add: isGapiReady_def truthy_def sample_defs)
  have served: "allServed sampleWorld"
    by (simp add: allServed_def sample_defs)
  have ids: "\<forall>x\<in>set ?xs. songId x \<noteq> []" "\<forall>x\<in>set ?ys. songId x \<noteq> []"
    by (simp_all add: entry_def)
  have ox: "mset (map order ?xs) = mset (map int [0..<length ?xs])"
    by (simp add: entry_def upt_rec)
  have oy: "mset (map order ?ys) = mset (map int [0..<length ?ys])"
    by (simp add: entry_def upt_rec)
  have seq: "map order ?ys = map int [0..<length ?ys]"
    by (simp add: entry_def upt_rec)
  have "sort_key order ?xs = [entry ''a'' True 0, entry ''b'' False 1, entry ''c'' True 2]"
    by (simp add: entry_def)
  then show ?thesis
    using writer_reader_round_trip [OF ready served ids(1) ox]
      writer_reader_round_trip [OF ready served ids(2) oy] seq
    by simp
qed

section \<open>Failures of the read\<close>

text \<open>
  C2. On every failure of the read (a rejected \<^verbatim>\<open>fetch\<close>, a status that is no success, a
  body that cannot be read) the \<^verbatim>\<open>try\<close> block of \<open>getPlaylistData\<close> raises, and
  \<open>getPlaylistData\<close> returns the empty list to its caller instead of the error.
\<close>

theorem reader_swallows_failures:
  assumes "readFails (nextReply w)"
  shows "isl (fst (getPlaylistData_try w)) \<and> fst (getPlaylistData w) = []"
proof (cases "nextReply w")
  case Serve
  with assms show ?thesis by (simp add: readFails_def)
next
  case Reject
  then show ?thesis
    using rateLimitedFetch_scripted(1) [of w GET]
    by (cases "rateLimitedFetch GET w")
       (simp add: getPlaylistData_def getPlaylistData_try_def)
next
  case (Answer resp)
  with assms have "\<not> ok resp \<or> body resp = Malformed"
    by (simp add: readFails_def)
  then show ?thesis
    using rateLimitedFetch_scripted(2) [OF Answer, of GET]
    by (cases "rateLimitedFetch GET w")
       (auto simp: getPlaylistData_def getPlaylistData_try_def)
qed

theorem reader_swallows_failures_witness:
  "fst (getPlaylistData (sampleWorld\<lparr>script := [Answer \<lparr>status = 403, body = Values None\<rparr>]\<rparr>)) = [] \<and>
   fst (getPlaylistData (sampleWorld\<lparr>script := [Reject]\<rparr>)) = [] \<and>
   fst (getPlaylistData (sampleWorld\<lparr>script := [Answer \<lparr>status = 200, body = Malformed\<rparr>]\<rparr>)) = []"
  using reader_swallows_failures [of "sampleWorld\<lparr>script := [Answer \<lparr>status = 403, body = Values None\<rparr>]\<rparr>"]
    reader_swallows_failures [of "sampleWorld\<lparr>script := [Reject]\<rparr>"]
    reader_swallows_failures [of "sampleWorld\<lparr>script := [Answer \<lparr>status = 200, body = Malformed\<rparr>]\<rparr>"]
  by (simp add: readFails_def nextReply_def ok_def)

section \<open>Writes of a session that is not signed in\<close>

text \<open>
  C3. When \<open>isGapiReady\<close> is false, \<open>updatePlaylistData\<close> fails with \<open>Unauthenticated\<close>
  for every list of entries and leaves the state as it was: no call of \<^verbatim>\<open>fetch\<close> is made.
\<close>

theorem writer_rejects_unauthenticated:
  assumes "\<not> isGapiReady w"
  shows "updatePlaylistData items w = (Inl Unauthenticated, w) \<and>
         requests (snd (updatePlaylistData items w)) = requests w"
  using assms by (simp add: updatePlaylistData_def)

theorem writer_rejects_unauthenticated_witness:
  "updatePlaylistData [entry ''a'' True 0] signedOutWorld = (Inl Unauthenticated, signedOutWorld) \<and>
   requests (snd (updatePlaylistData [entry ''a'' True 0] signedOutWorld)) = []"
  using writer_rejects_unauthenticated [of signedOutWorld "[entry ''a'' True 0]"]
  by (simp add: isGapiReady_def sample_defs)

section \<open>Facts about the lists the mutator builds\<close>

lemma map_reindex:
  assumes "\<And>i x. g (x\<lparr>order := int i\<rparr>) = g x"
  shows "map g (map (\<lambda>(index, x). x\<lparr>order := int index\<rparr>) (enumerate n xs)) = map g xs"
  by (induction xs arbitrary: n) (simp_all add: assms)

lemma reindex_songId:
  "map songId (map (\<lambda>(index, x). x\<lparr>order := int index\<rparr>) (enumerate n xs)) = map songId xs"
  by (rule map_reindex) simp

lemma reindex_selected:
  "map selected (map (\<lambda>(index, x). x\<lparr>order := int index\<rparr>) (enumerate n xs)) = map selected xs"
  by (rule map_reindex) simp

lemma reindex_order:
  "map order (map (\<lambda>(index, x). x\<lparr>order := int index\<rparr>) (enumerate n xs)) =
     map int [n..<n + length xs]"
proof (induction xs arbitrary: n)
  case Nil
  then show ?case by simp
next
  case (Cons x xs)
  have "[n..<n + length (x # xs)] = n # [Suc n..<Suc n + length xs]"
    by (simp add: upt_conv_Cons del: upt_Suc)
  with Cons [of "Suc n"] show ?case by (simp del: upt_Suc)
qed

lemma sheetValues_sorted:
  "sorted (map order xs) \<Longrightarrow> sheetValues xs = header # map itemToRow xs"
  by (simp add: sheetValues_def sort_key_id_if_sorted)

lemma itemToRow_reindex:
  "map itemToRow (map (\<lambda>(index, x). x\<lparr>order := int index\<rparr>) (enumerate n xs)) = map itemToRow xs"
  by (rule map_reindex) (simp add: itemToRow_def)

lemma removedPlaylist_songId:
  "map songId (removedPlaylist sid cur) = filter (\<lambda>s. s \<noteq> sid) (map songId cur)"
  unfolding removedPlaylist_def reindex_songId by (simp add: filter_map comp_def)

lemma removedPlaylist_selected:
  "map selected (removedPlaylist sid cur) = map selected (filter (\<lambda>x. songId x \<noteq> sid) cur)"
  unfolding removedPlaylist_def reindex_selected ..

lemma removedPlaylist_order:
  "map order (removedPlaylist sid cur) = map int [0..<length (removedPlaylist sid cur)]"
  unfolding removedPlaylist_def reindex_order by simp

lemma removedPlaylist_sheetValues:
  "sheetValues (removedPlaylist sid cur) =
     header # map itemToRow (filter (\<lambda>x. songId x \<noteq> sid) cur)"
proof -
  have "sheetValues (removedPlaylist sid cur) = header # map itemToRow (removedPlaylist sid cur)"
    by (rule sheetValues_sorted) (simp add: removedPlaylist_order sorted_upt_int)
  also have "map itemToRow (removedPlaylist sid cur) =
      map itemToRow (filter (\<lambda>x. songId x \<noteq> sid) cur)"
    unfolding removedPlaylist_def itemToRow_reindex ..
  finally show ?thesis .
qed

lemma length_filter_distinct:
  "distinct ss \<Longrightarrow> s \<in> set ss \<Longrightarrow> length (filter (\<lambda>t. t \<noteq> s) ss) = length ss - 1"
proof (induction ss)
  case Nil
  then show ?case by simp
next
  case (Cons a ss)
  show ?case
  proof (cases "a = s")
    case True
    with Cons.prems have "filter (\<lambda>t. t \<noteq> s) ss = ss" by (auto intro: filter_True)
    with True show ?thesis by simp
  next
    case False
    with Cons have "length (filter (\<lambda>t. t \<noteq> s) ss) = length ss - 1" and "ss \<noteq> []" by auto
    with False show ?thesis by (cases ss) simp_all
  qed
qed

lemma removedPlaylist_length:
  assumes "distinct (map songId cur)" and "sid \<in> set (map songId cur)"
  shows "length (removedPlaylist sid cur) = length cur - 1"
proof -
  have "length (removedPlaylist sid cur) = length (map songId (removedPlaylist sid cur))"
    by simp
  also have "\<dots> = length (map songId cur) - 1"
    unfolding removedPlaylist_songId by (rule length_filter_distinct [OF assms])
  finally show ?thesis by simp
qed

lemma removeSongFromPlaylist_puts:
  assumes "getPlaylistData w = (cur, w1)" and "isGapiReady w"
  shows "puts (snd (removeSongFromPlaylist sid w)) = puts w @ [sheetValues (removedPlaylist sid cur)]"
proof -
  have "isGapiReady w1" "puts w1 = puts w"
    using getPlaylistData_ready [of w] getPlaylistData_puts [of w] assms by simp_all
  then show ?thesis
    by (simp add: removeSongFromPlaylist_def assms(1) updatePlaylistData_puts)
qed

section \<open>Removing a song\<close>

text \<open>
  C5. For every fetched playlist with pairwise distinct \<open>songId\<close>s that holds an entry
  for the given id, \<open>removeSongFromPlaylist\<close> writes back one entry less: the rows written
  are the fetched entries without that one, in their fetched sequence, and the \<open>order\<close>
  fields of the list written are exactly \<open>0 .. n-2\<close>. (This holds whatever the fetched
  \<open>order\<close> values are, so also when they are \<open>0 .. n-1\<close>.)
\<close>

theorem remove_reindexes:
  assumes fetched: "getPlaylistData w = (cur, w1)"
    and ready: "isGapiReady w"
    and uniq: "distinct (map songId cur)"
    and present: "sid \<in> set (map songId cur)"
  shows "puts (snd (removeSongFromPlaylist sid w)) = puts w @ [sheetValues (removedPlaylist sid cur)] \<and>
         sheetValues (removedPlaylist sid cur) =
           header # map itemToRow (filter (\<lambda>x. songId x \<noteq> sid) cur) \<and>
         length (removedPlaylist sid cur) = length cur - 1 \<and>
         map order (removedPlaylist sid cur) = map int [0..<length cur - 1] \<and>
         map songId (removedPlaylist sid cur) = filter (\<lambda>s. s \<noteq> sid) (map songId cur) \<and>
         map selected (removedPlaylist sid cur) =
           map selected (filter (\<lambda>x. songId x \<noteq> sid) cur)"
  using removeSongFromPlaylist_puts [OF fetched ready, of sid]
    removedPlaylist_sheetValues [of sid cur]
    removedPlaylist_length [OF uniq present]
    removedPlaylist_order [of sid cur]
    removedPlaylist_songId [of sid cur]
    removedPlaylist_selected [of sid cur]
  by simp

theorem remove_reindexes_witness:
  "puts (snd (removeSongFromPlaylist ''b'' sampleWorld)) =
     [[header, [''a'', ''TRUE''], [''c'', ''TRUE'']]] \<and>
   removedPlaylist ''b'' [entry ''a'' True 0, entry ''b'' False 1, entry ''c'' True 2] =
     [entry ''a'' True 0, entry ''c'' True 1]"
proof -
  have uniq: "distinct (map songId [entry ''a'' True 0, entry ''b'' False 1, entry ''c'' True 2])"
    by (simp add: entry_def)
  have present: "''b'' \<in> set (map songId [entry ''a'' True 0, entry ''b'' False 1, entry ''c'' True 2])"
    by (simp add: entry_def)
  have "puts sampleWorld = []"
    by (simp add: puts_def sample_defs)
  moreover have "removedPlaylist ''b'' [entry ''a'' True 0, entry ''b'' False 1, entry ''c'' True 2] =
     [entry ''a'' True 0, entry ''c'' True 1]"
    by (simp add: removedPlaylist_def entry_def)
  ultimately show ?thesis
    using remove_reindexes [OF sampleWorld_read sampleWorld_ready uniq present]
    by (simp add: entry_def itemToRow_def)
qed

section \<open>Toggling a song\<close>

lemma find_distinct_songId:
  assumes "distinct (map songId cur)" and "find (\<lambda>x. songId x = sid) cur = Some e"
    and "x \<in> set cur"
  shows "songId x = sid \<longleftrightarrow> x = e"
proof -
  from assms(2) have e: "e \<in> set cur" "songId e = sid"
    by (auto simp: find_Some_iff)
  with assms(1,3) show ?thesis
    by (auto simp: distinct_map dest: inj_onD)
qed

lemma markedPlaylist_only:
  assumes "distinct (map songId cur)" and "find (\<lambda>x. songId x = sid) cur = Some e"
  shows "markedPlaylist sid cur = map (\<lambda>x. if x = e then e\<lparr>selected := True\<rparr> else x) cur"
  unfolding markedPlaylist_def
  by (rule map_cong [OF refl]) (simp add: find_distinct_songId [OF assms])

lemma addSongToPlaylist_puts:
  assumes "getPlaylistData w = (cur, w1)" and "isGapiReady w"
  shows "puts (snd (addSongToPlaylist sid w)) = puts w @ [sheetValues (addedPlaylist sid cur)]"
proof -
  have "isGapiReady w1" "puts w1 = puts w"
    using getPlaylistData_ready [of w] getPlaylistData_puts [of w] assms by simp_all
  then show ?thesis
    by (simp add: addSongToPlaylist_def assms(1) updatePlaylistData_puts)
qed

lemma reread:
  assumes "getPlaylistData w = (cur, w1)"
  shows "isGapiReady w1 = isGapiReady w" and "puts w1 = puts w" and "sheet w1 = sheet w"
  using getPlaylistData_ready [of w] getPlaylistData_puts [of w] getPlaylistData_sheet [of w] assms
  by simp_all

text \<open>
  C4. For every fetched playlist with pairwise distinct \<open>songId\<close>s, in a signed-in
  session, \<open>toggleSongSelection\<close> does one of three things.
  If the entry with the id exists and is selected, the toggle is a run of
  \<open>removeSongFromPlaylist\<close> after the fetch; when that run fetches the same playlist, the
  matrix written is the one \<open>removeSongFromPlaylist\<close> writes: the fetched rows without the
  entry (deleted, not flagged false).
  If the entry exists and is unselected, the list written is the fetched list with that
  one entry changed in its \<open>selected\<close> field only, to true.
  If no entry has the id, the toggle is a run of \<open>addSongToPlaylist\<close> after the fetch;
  when that run fetches the same playlist, the matrix written is the one
  \<open>addSongToPlaylist\<close> writes: the fetched entries followed by the new one, selected, with
  \<open>order\<close> the number of fetched entries.
\<close>

theorem toggle_trichotomy:
  assumes fetched: "getPlaylistData w = (cur, w1)"
    and ready: "isGapiReady w"
    and uniq: "distinct (map songId cur)"
  shows "(\<forall>e. find (\<lambda>x. songId x = sid) cur = Some e \<and> selected e \<longrightarrow>
            toggleSongSelection sid w = removeSongFromPlaylist sid w1 \<and>
            (fst (getPlaylistData w1) = cur \<longrightarrow>
               puts (snd (toggleSongSelection sid w)) = puts (snd (removeSongFromPlaylist sid w)) \<and>
               puts (snd (toggleSongSelection sid w)) =
                 puts w @ [header # map itemToRow (filter (\<lambda>x. songId x \<noteq> sid) cur)])) \<and>
         (\<forall>e. find (\<lambda>x. songId x = sid) cur = Some e \<and> \<not> selected e \<longrightarrow>
            puts (snd (toggleSongSelection sid w)) = puts w @ [sheetValues (markedPlaylist sid cur)] \<and>
            markedPlaylist sid cur = map (\<lambda>x. if x = e then e\<lparr>selected := True\<rparr> else x) cur) \<and>
         (find (\<lambda>x. songId x = sid) cur = None \<longrightarrow>
            toggleSongSelection sid w = addSongToPlaylist sid w1 \<and>
            (fst (getPlaylistData w1) = cur \<longrightarrow>
               puts (snd (toggleSongSelection sid w)) = puts (snd (addSongToPlaylist sid w)) \<and>
               puts (snd (toggleSongSelection sid w)) =
                 puts w @ [sheetValues (cur @ [\<lparr>songId = sid, selected = True,
                                                order = int (length cur)\<rparr>])]))"
proof (intro conjI allI impI)
  fix e assume "find (\<lambda>x. songId x = sid) cur = Some e \<and> selected e"
  then show "toggleSongSelection sid w = removeSongFromPlaylist sid w1"
    by (simp add: toggleSongSelection_def fetched)
next
  fix e assume found: "find (\<lambda>x. songId x = sid) cur = Some e \<and> selected e"
    and again: "fst (getPlaylistData w1) = cur"
  have "getPlaylistData w1 = (cur, snd (getPlaylistData w1))"
    using again by (simp add: prod_eq_iff)
  from removeSongFromPlaylist_puts [OF this, of sid] reread [OF fetched] ready found
  show toggled: "puts (snd (toggleSongSelection sid w)) =
          puts w @ [header # map itemToRow (filter (\<lambda>x. songId x \<noteq> sid) cur)]"
    by (simp add: toggleSongSelection_def fetched removedPlaylist_sheetValues)
  show "puts (snd (toggleSongSelection sid w)) = puts (snd (removeSongFromPlaylist sid w))"
    unfolding toggled removeSongFromPlaylist_puts [OF fetched ready] removedPlaylist_sheetValues ..
next
  fix e assume found: "find (\<lambda>x. songId x = sid) cur = Some e \<and> \<not> selected e"
  with reread [OF fetched] ready
  show "puts (snd (toggleSongSelection sid w)) = puts w @ [sheetValues (markedPlaylist sid cur)]"
    by (simp add: toggleSongSelection_def fetched updatePlaylistData_puts)
  from found show "markedPlaylist sid cur = map (\<lambda>x. if x = e then e\<lparr>selected := True\<rparr> else x) cur"
    by (simp add: markedPlaylist_only [OF uniq])
next
  assume "find (\<lambda>x. songId x = sid) cur = None"
  then show "toggleSongSelection sid w = addSongToPlaylist sid w1"
    by (simp add: toggleSongSelection_def fetched)
next
  assume absent: "find (\<lambda>x. songId x = sid) cur = None"
    and again: "fst (getPlaylistData w1) = cur"
  have "getPlaylistData w1 = (cur, snd (getPlaylistData w1))"
    using again by (simp add: prod_eq_iff)
  from addSongToPlaylist_puts [OF this, of sid] reread [OF fetched] ready absent
  show toggled: "puts (snd (toggleSongSelection sid w)) =
          puts w @ [sheetValues (cur @ [\<lparr>songId = sid, selected = True, order = int (length cur)\<rparr>])]"
    by (simp add: toggleSongSelection_def fetched addedPlaylist_def)
  show "puts (snd (toggleSongSelection sid w)) = puts (snd (addSongToPlaylist sid w))"
    unfolding toggled addSongToPlaylist_puts [OF fetched ready] addedPlaylist_def ..
qed


theorem toggle_trichotomy_witness:
  "puts (snd (toggleSongSelection ''a'' sampleWorld)) =
     [[header, [''b'', ''FALSE''], [''c'', ''TRUE'']]] \<and>
   puts (snd (toggleSongSelection ''b'' sampleWorld)) =
     [[header, [''a'', ''TRUE''], [''b'', ''TRUE''], [''c'', ''TRUE'']]] \<and>
   puts (snd (toggleSongSelection ''z'' sampleWorld)) =
     [[header, [''a'', ''TRUE''], [''b'', ''FALSE''], [''c'', ''TRUE''], [''z'', ''TRUE'']]]"
proof -
  let ?cur = "[entry ''a'' True 0, entry ''b'' False 1, entry ''c'' True 2]"
  have uniq: "distinct (map songId ?cur)"
    by (simp add: entry_def)
  have found:
    "find (\<lambda>x. songId x = ''a'') ?cur = Some (entry ''a'' True 0)"
    "find (\<lambda>x. songId x = ''b'') ?cur = Some (entry ''b'' False 1)"
    "find (\<lambda>x. songId x = ''z'') ?cur = None"
    by (simp_all add: entry_def)
  have flags: "selected (entry ''a'' True 0)" "\<not> selected (entry ''b'' False 1)"
    by (simp_all add: entry_def)
  have fresh: "puts sampleWorld = []"
    by (simp add: puts_def sample_defs)
  have rows:
    "map itemToRow (filter (\<lambda>x. songId x \<noteq> ''a'') ?cur) = [[''b'', ''FALSE''], [''c'', ''TRUE'']]"
    "sheetValues (markedPlaylist ''b'' ?cur) =
       [header, [''a'', ''TRUE''], [''b'', ''TRUE''], [''c'', ''TRUE'']]"
    "sheetValues (?cur @ [\<lparr>songId = ''z'', selected = True, order = int (length ?cur)\<rparr>]) =
       [header, [''a'', ''TRUE''], [''b'', ''FALSE''], [''c'', ''TRUE''], [''z'', ''TRUE'']]"
    by (simp_all add: entry_def itemToRow_def sheetValues_def markedPlaylist_def)
  have "puts (snd (toggleSongSelection ''a'' sampleWorld)) =
          puts sampleWorld @ [header # map itemToRow (filter (\<lambda>x. songId x \<noteq> ''a'') ?cur)]"
    using toggle_trichotomy [OF sampleWorld_read sampleWorld_ready uniq, of "''a''"]
      found(1) flags(1) sampleWorld_read_again
    by blast
  moreover have "puts (snd (toggleSongSelection ''b'' sampleWorld)) =
          puts sampleWorld @ [sheetValues (markedPlaylist ''b'' ?cur)]"
    using toggle_trichotomy [OF sampleWorld_read sampleWorld_ready uniq, of "''b''"]
      found(2) flags(2)
    by blast
  moreover have "puts (snd (toggleSongSelection ''z'' sampleWorld)) =
          puts sampleWorld @
            [sheetValues (?cur @ [\<lparr>songId = ''z'', selected = True, order = int (length ?cur)\<rparr>])]"
    using toggle_trichotomy [OF sampleWorld_read sampleWorld_ready uniq, of "''z''"]
      found(3) sampleWorld_read_again
    by blast
  ultimately show ?thesis
    unfolding fresh rows by simp
qed

section \<open>Reordering\<close>

lemma reorderedPlaylist_nth:
  assumes "i < length ids"
  shows "reorderedPlaylist ids cur ! i =
           \<lparr>songId = ids ! i,
            selected = (case find (\<lambda>x. songId x = ids ! i) cur of
                          None \<Rightarrow> True | Some y \<Rightarrow> selected y),
            order = int i\<rparr>"
  using assms by (simp add: reorderedPlaylist_def nth_enumerate_eq)

lemma reorderedPlaylist_length:
  "length (reorderedPlaylist ids cur) = length ids"
  by (simp add: reorderedPlaylist_def)

lemma reorderedPlaylist_songId:
  "map songId (reorderedPlaylist ids cur) = ids"
  by (rule nth_equalityI) (simp_all add: reorderedPlaylist_length reorderedPlaylist_nth)

lemma reorderedPlaylist_order:
  "map order (reorderedPlaylist ids cur) = map int [0..<length ids]"
  by (rule nth_equalityI) (simp_all add: reorderedPlaylist_length reorderedPlaylist_nth)

lemma reorderedPlaylist_sheetValues:
  "sheetValues (reorderedPlaylist ids cur) = header # map itemToRow (reorderedPlaylist ids cur)"
  by (rule sheetValues_sorted) (simp add: reorderedPlaylist_order sorted_upt_int)

lemma reorderPlaylist_puts:
  assumes "getPlaylistData w = (cur, w1)" and "isGapiReady w"
  shows "puts (snd (reorderPlaylist ids w)) =
           puts w @ [header # map itemToRow (reorderedPlaylist ids cur)]"
  using reread [OF assms(1)] assms(2)
  by (simp add: reorderPlaylist_def assms(1) updatePlaylistData_puts reorderedPlaylist_sheetValues)

text \<open>
  C6. For every fetched playlist and every list of ids, \<open>reorderPlaylist\<close> in a signed-in
  session writes one row per position of the list, in the order of the list; the entry at
  position \<open>i\<close> has the \<open>i\<close>-th id and \<open>order = i\<close>; its \<open>selected\<close> flag is that of the
  fetched entry with this id (the one \<^verbatim>\<open>find\<close> returns) when there is one and true
  otherwise; a fetched entry whose id is not in the list has no entry in the write.
\<close>

theorem reorder_replaces:
  assumes fetched: "getPlaylistData w = (cur, w1)"
    and ready: "isGapiReady w"
  shows "puts (snd (reorderPlaylist ids w)) =
           puts w @ [header # map itemToRow (reorderedPlaylist ids cur)] \<and>
         length (reorderedPlaylist ids cur) = length ids \<and>
         (\<forall>i<length ids.
            songId (reorderedPlaylist ids cur ! i) = ids ! i \<and>
            order (reorderedPlaylist ids cur ! i) = int i \<and>
            (case find (\<lambda>x. songId x = ids ! i) cur of
               None \<Rightarrow> ids ! i \<notin> songId ` set cur \<and> selected (reorderedPlaylist ids cur ! i)
             | Some y \<Rightarrow> y \<in> set cur \<and> songId y = ids ! i \<and>
                 selected (reorderedPlaylist ids cur ! i) = selected y)) \<and>
         (\<forall>y\<in>set cur. songId y \<notin> set ids \<longrightarrow>
            songId y \<notin> songId ` set (reorderedPlaylist ids cur))"
proof (intro conjI allI impI ballI)
  show "puts (snd (reorderPlaylist ids w)) =
          puts w @ [header # map itemToRow (reorderedPlaylist ids cur)]"
    by (rule reorderPlaylist_puts [OF fetched ready])
  show "length (reorderedPlaylist ids cur) = length ids"
    by (simp add: reorderedPlaylist_def)
next
  fix i assume i: "i < length ids"
  show "songId (reorderedPlaylist ids cur ! i) = ids ! i"
    and "order (reorderedPlaylist ids cur ! i) = int i"
    by (simp_all add: reorderedPlaylist_nth [OF i])
  show "case find (\<lambda>x. songId x = ids ! i) cur of
          None \<Rightarrow> ids ! i \<notin> songId ` set cur \<and> selected (reorderedPlaylist ids cur ! i)
        | Some y \<Rightarrow> y \<in> set cur \<and> songId y = ids ! i \<and>
            selected (reorderedPlaylist ids cur ! i) = selected y"
  proof (cases "find (\<lambda>x. songId x = ids ! i) cur")
    case None
    then have "ids ! i \<notin> songId ` set cur"
      by (auto simp: find_None_iff)
    with None show ?thesis
      by (simp add: reorderedPlaylist_nth [OF i])
  next
    case (Some y)
    then have "y \<in> set cur" and "songId y = ids ! i"
      by (auto simp: find_Some_iff)
    with Some show ?thesis
      by (simp add: reorderedPlaylist_nth [OF i])
  qed
next
  fix y assume "y \<in> set cur" and "songId y \<notin> set ids"
  then show "songId y \<notin> songId ` set (reorderedPlaylist ids cur)"
    using reorderedPlaylist_songId [of ids cur] by (metis set_map)
qed

theorem reorder_replaces_witness:
  "puts (snd (reorderPlaylist [''c'', ''b'', ''z''] sampleWorld)) =
     [[header, [''c'', ''TRUE''], [''b'', ''FALSE''], [''z'', ''TRUE'']]]"
proof -
  have "reorderedPlaylist [''c'', ''b'', ''z'']
          [entry ''a'' True 0, entry ''b'' False 1, entry ''c'' True 2] =
        [entry ''c'' True 0, entry ''b'' False 1, entry ''z'' True 2]"
    by (simp add: reorderedPlaylist_def entry_def)
  moreover have "puts sampleWorld = []"
    by (simp add: puts_def sample_defs)
  ultimately show ?thesis
    using reorder_replaces [OF sampleWorld_read sampleWorld_ready, of "[''c'', ''b'', ''z'']"]
    by (simp add: entry_def itemToRow_def)
qed

text \<open>
  C10. \<open>reorderPlaylist\<close> does not deduplicate: for every list of ids in which some id
  occurs more than once, the rows written carry the ids of the list position by position,
  one row per occurrence, and the \<open>songId\<close>s of the list written are not distinct.
\<close>

theorem reorder_keeps_duplicates:
  assumes fetched: "getPlaylistData w = (cur, w1)"
    and ready: "isGapiReady w"
    and dup: "\<not> distinct ids"
  shows "puts (snd (reorderPlaylist ids w)) =
           puts w @ [header # map itemToRow (reorderedPlaylist ids cur)] \<and>
         map hd (map itemToRow (reorderedPlaylist ids cur)) = ids \<and>
         map songId (reorderedPlaylist ids cur) = ids \<and>
         \<not> distinct (map songId (reorderedPlaylist ids cur))"
proof -
  have "map hd (map itemToRow (reorderedPlaylist ids cur)) = map songId (reorderedPlaylist ids cur)"
    by (simp add: itemToRow_def)
  with dup show ?thesis
    by (simp add: reorderPlaylist_puts [OF fetched ready] reorderedPlaylist_songId)
qed

theorem reorder_keeps_duplicates_witness:
  "puts (snd (reorderPlaylist [''a'', ''b'', ''a''] sampleWorld)) =
     [[header, [''a'', ''TRUE''], [''b'', ''FALSE''], [''a'', ''TRUE'']]]"
proof -
  have dup: "\<not> distinct [''a'', ''b'', ''a'']"
    by simp
  have "reorderedPlaylist [''a'', ''b'', ''a'']
          [entry ''a'' True 0, entry ''b'' False 1, entry ''c'' True 2] =
        [entry ''a'' True 0, entry ''b'' False 1, entry ''a'' True 2]"
    by (simp add: reorderedPlaylist_def entry_def)
  moreover have "puts sampleWorld = []"
    by (simp add: puts_def sample_defs)
  ultimately show ?thesis
    using reorder_keeps_duplicates [OF sampleWorld_read sampleWorld_ready dup]
    by (simp add: entry_def itemToRow_def)
qed

section \<open>The selected flag of a row\<close>

lemma parsed_flags:
  "map selected (filter (\<lambda>x. songId x \<noteq> [])
      (map (\<lambda>(index, r). rowToItem r index) (enumerate n rs))) =
   map (\<lambda>r. cell r 1 \<in> {Some ''TRUE'', Some ''true'', Some ''1''})
     (filter (\<lambda>r. cell r 0 \<notin> {None, Some []}) rs)"
  by (induction rs arbitrary: n) (auto simp: rowToItem_def split: option.splits)

text \<open>
  C7, as amended. The flags of the entries the reader returns are, row by row over the
  data rows with a non-empty first column, the test whether the second column is exactly
  one of the three strings \<^verbatim>\<open>TRUE\<close>, \<^verbatim>\<open>true\<close> and \<^verbatim>\<open>1\<close>; every other value of the second
  column, also an empty or a missing one, gives false.
\<close>

theorem selected_exact_tokens:
  "map selected (parseRows rows) =
     map (\<lambda>r. cell r 1 \<in> {Some ''TRUE'', Some ''true'', Some ''1''})
       (filter (\<lambda>r. cell r 0 \<notin> {None, Some []}) (drop 1 rows))"
  unfolding parseRows_def by (rule parsed_flags)

text \<open>
  C7 as stated fails: the comparison is not case-insensitive. For the row
  \<^verbatim>\<open>["a", "True"]\<close> the second column is a truthy token in the wording of the
  specification, and the reader returns the entry unselected.
\<close>

theorem selected_case_insensitive_counterexample:
  "truthyToken (cell [''a'', ''True''] 1) \<and>
   \<not> selected (rowToItem [''a'', ''True''] 0) \<and>
   fst (getPlaylistData (sampleWorld\<lparr>sheet := [header, [''a'', ''True'']]\<rparr>)) =
     [\<lparr>songId = ''a'', selected = False, order = 0\<rparr>]"
  by (simp add: truthyToken_def toLowerCase_def run_defs sample_defs)

section \<open>Overlapping calls of the rate limiter\<close>

text \<open>
  Two calls made back to back on a fresh page are kept apart: the second one finds the
  first one's time and sleeps for the whole interval.
\<close>

lemma rate_limiter_back_to_back:
  "begun (run [5000, 5000] freshPage) = [5000, 6000]"
  by (simp add: freshPage_def invoke_def wake_def resume_def waitFor_def RATE_LIMIT_DELAY_def)

text \<open>
  C9. The limiter writes \<^verbatim>\<open>lastRequestTime\<close> only after its \<^verbatim>\<open>await\<close>. On a fresh page, a
  call at time 5000 begins at once; calls at 5100 and 5200 both read 5000, both sleep
  until 6000 and both begin there: two calls begin 0 ms apart, not 1000 ms or more.
  (For one caller at a time the interval holds, see \<open>rateLimitedFetch_gap\<close>.)
\<close>

theorem rate_limiter_overlap:
  "begun (run [5000, 5100, 5200] freshPage) = [5000, 6000, 6000]"
  by (simp add: freshPage_def invoke_def wake_def resume_def waitFor_def RATE_LIMIT_DELAY_def)

section \<open>Toggling twice\<close>

lemma read_twice:
  assumes "allServed w"
  shows "fst (getPlaylistData (snd (getPlaylistData w))) = fst (getPlaylistData w)"
proof -
  have "nextReply (snd (getPlaylistData w)) = Serve"
    by (rule allServed_nextReply [OF getPlaylistData_allServed [OF assms]])
  then show ?thesis
    by (simp add: getPlaylistData_served allServed_nextReply [OF assms] getPlaylistData_sheet)
qed

lemma normal_form:
  assumes "map order xs = map int [0..<length xs]"
  shows "map (\<lambda>(index, x). x\<lparr>order := int index\<rparr>) (enumerate 0 (sort_key order xs)) = xs"
proof -
  have "sort_key order xs = xs"
    by (rule sort_key_id_if_sorted) (simp add: assms sorted_upt_int)
  then show ?thesis by (simp add: reindex_ident assms)
qed

lemma removedPlaylist_ids:
  assumes "\<forall>x\<in>set cur. songId x \<noteq> []"
  shows "\<forall>x\<in>set (removedPlaylist sid cur). songId x \<noteq> []"
proof -
  have "set (map songId (removedPlaylist sid cur)) \<subseteq> set (map songId cur)"
    unfolding removedPlaylist_songId by auto
  with assms show ?thesis by auto
qed

lemma removeSongFromPlaylist_served:
  assumes ready: "isGapiReady w" and served: "allServed w"
  shows "fst (removeSongFromPlaylist sid w) = Inr ()"
    and "isGapiReady (snd (removeSongFromPlaylist sid w))"
    and "allServed (snd (removeSongFromPlaylist sid w))"
    and "fst (getPlaylistData (snd (removeSongFromPlaylist sid w))) =
           removedPlaylist sid (fst (getPlaylistData w))"
proof -
  obtain cur w1 where fetched: "getPlaylistData w = (cur, w1)"
    by (cases "getPlaylistData w")
  have w1: "isGapiReady w1" "allServed w1"
    using getPlaylistData_ready [of w] getPlaylistData_allServed [OF served] ready fetched
    by simp_all
  have ids: "\<forall>x\<in>set (removedPlaylist sid cur). songId x \<noteq> []"
    using getPlaylistData_songId [of _ w] fetched by (intro removedPlaylist_ids) simp
  have run: "removeSongFromPlaylist sid w = updatePlaylistData (removedPlaylist sid cur) w1"
    by (simp add: removeSongFromPlaylist_def fetched)
  show "fst (removeSongFromPlaylist sid w) = Inr ()"
    unfolding run by (rule write_then_read(1) [OF w1 ids])
  show "isGapiReady (snd (removeSongFromPlaylist sid w))"
    unfolding run by (simp add: updatePlaylistData_keeps_ready w1)
  show "allServed (snd (removeSongFromPlaylist sid w))"
    unfolding run by (rule updatePlaylistData_allServed [OF w1(2)])
  show "fst (getPlaylistData (snd (removeSongFromPlaylist sid w))) =
          removedPlaylist sid (fst (getPlaylistData w))"
    unfolding run write_then_read(3) [OF w1 ids]
    by (simp add: fetched normal_form removedPlaylist_order)
qed

lemma addSongToPlaylist_served:
  assumes ready: "isGapiReady w" and served: "allServed w"
    and sid: "sid \<noteq> []"
    and orders: "map order (fst (getPlaylistData w)) =
                   map int [0..<length (fst (getPlaylistData w))]"
  shows "fst (addSongToPlaylist sid w) = Inr ()"
    and "fst (getPlaylistData (snd (addSongToPlaylist sid w))) =
           addedPlaylist sid (fst (getPlaylistData w))"
proof -
  obtain cur w1 where fetched: "getPlaylistData w = (cur, w1)"
    by (cases "getPlaylistData w")
  have w1: "isGapiReady w1" "allServed w1"
    using getPlaylistData_ready [of w] getPlaylistData_allServed [OF served] ready fetched
    by simp_all
  have ids: "\<forall>x\<in>set (addedPlaylist sid cur). songId x \<noteq> []"
    using getPlaylistData_songId [of _ w] fetched sid by (auto simp: addedPlaylist_def)
  have ord: "map order (addedPlaylist sid cur) = map int [0..<length (addedPlaylist sid cur)]"
    using orders fetched by (simp add: addedPlaylist_def)
  have run: "addSongToPlaylist sid w = updatePlaylistData (addedPlaylist sid cur) w1"
    by (simp add: addSongToPlaylist_def fetched)
  show "fst (addSongToPlaylist sid w) = Inr ()"
    unfolding run by (rule write_then_read(1) [OF w1 ids])
  show "fst (getPlaylistData (snd (addSongToPlaylist sid w))) =
          addedPlaylist sid (fst (getPlaylistData w))"
    unfolding run write_then_read(3) [OF w1 ids]
    by (simp add: fetched normal_form [OF ord])
qed

lemma toggle_selected:
  assumes "getPlaylistData v = (xs, v1)" and "find (\<lambda>x. songId x = sid) xs = Some e"
    and "selected e"
  shows "toggleSongSelection sid v = removeSongFromPlaylist sid v1"
  using assms by (simp add: toggleSongSelection_def)

lemma toggle_absent:
  assumes "getPlaylistData v = (xs, v1)" and "find (\<lambda>x. songId x = sid) xs = None"
  shows "toggleSongSelection sid v = addSongToPlaylist sid v1"
  using assms by (simp add: toggleSongSelection_def)

text \<open>
  C8. In a signed-in session served by the backing store, with a stored playlist of
  \<open>n\<close> entries with pairwise distinct \<open>songId\<close>s in which the entry for \<open>sid\<close> is selected
  and has \<open>order\<close> below \<open>n - 1\<close>: the first toggle succeeds and leaves the stored
  playlist without that entry, \<open>n - 1\<close> entries with \<open>order\<close> \<open>0 .. n-2\<close>; the second toggle
  succeeds and leaves that playlist followed by a selected entry for \<open>sid\<close> with
  \<open>order = n - 1\<close>, which is not the \<open>order\<close> it had.
\<close>

theorem toggle_twice_moves_to_end:
  assumes ready: "isGapiReady w" and served: "allServed w"
    and stored: "fst (getPlaylistData w) = cur"
    and uniq: "distinct (map songId cur)"
    and found: "find (\<lambda>x. songId x = sid) cur = Some e"
    and sel: "selected e"
    and k: "order e < int (length cur) - 1"
  shows "fst (toggleSongSelection sid w) = Inr () \<and>
         fst (getPlaylistData (snd (toggleSongSelection sid w))) = removedPlaylist sid cur \<and>
         length (removedPlaylist sid cur) = length cur - 1 \<and>
         map order (removedPlaylist sid cur) = map int [0..<length cur - 1] \<and>
         sid \<notin> set (map songId (removedPlaylist sid cur)) \<and>
         fst (toggleSongSelection sid (snd (toggleSongSelection sid w))) = Inr () \<and>
         fst (getPlaylistData
               (snd (toggleSongSelection sid (snd (toggleSongSelection sid w))))) =
           removedPlaylist sid cur @
             [\<lparr>songId = sid, selected = True, order = int (length cur - 1)\<rparr>] \<and>
         int (length cur - 1) \<noteq> order e"
proof -
  let ?t1 = "toggleSongSelection sid w"
  let ?rest = "removedPlaylist sid cur"
  obtain wa where fetched: "getPlaylistData w = (cur, wa)"
    using stored by (cases "getPlaylistData w") simp
  have wa: "isGapiReady wa" "allServed wa" "fst (getPlaylistData wa) = cur"
    using getPlaylistData_ready [of w] getPlaylistData_allServed [OF served]
      read_twice [OF served] ready fetched
    by simp_all
  have e: "e \<in> set cur" "songId e = sid"
    using found by (auto simp: find_Some_iff)
  then have present: "sid \<in> set (map songId cur)"
    by auto
  have sid: "sid \<noteq> []"
    using getPlaylistData_songId [of e w] e fetched by simp
  have first: "?t1 = removeSongFromPlaylist sid wa"
    by (rule toggle_selected [OF fetched found sel])
  have t1: "fst ?t1 = Inr ()" "isGapiReady (snd ?t1)" "allServed (snd ?t1)"
    "fst (getPlaylistData (snd ?t1)) = ?rest"
    unfolding first using removeSongFromPlaylist_served [OF wa(1,2), of sid] wa(3)
    by simp_all
  have len: "length ?rest = length cur - 1"
    by (rule removedPlaylist_length [OF uniq present])
  have ord: "map order ?rest = map int [0..<length cur - 1]"
    using removedPlaylist_order [of sid cur] len by simp
  have gone: "sid \<notin> set (map songId ?rest)"
    unfolding removedPlaylist_songId by simp
  then have absent: "find (\<lambda>x. songId x = sid) ?rest = None"
    by (auto simp: find_None_iff)
  obtain wc where again: "getPlaylistData (snd ?t1) = (?rest, wc)"
    using t1(4) by (cases "getPlaylistData (snd ?t1)") simp
  have wc: "isGapiReady wc" "allServed wc" "fst (getPlaylistData wc) = ?rest"
    using getPlaylistData_ready [of "snd ?t1"] getPlaylistData_allServed [OF t1(3)]
      read_twice [OF t1(3)] t1(2,4) again
    by simp_all
  have second: "toggleSongSelection sid (snd ?t1) = addSongToPlaylist sid wc"
    by (rule toggle_absent [OF again absent])
  have orders: "map order (fst (getPlaylistData wc)) =
      map int [0..<length (fst (getPlaylistData wc))]"
    using wc(3) ord len by simp
  have t2: "fst (toggleSongSelection sid (snd ?t1)) = Inr ()"
    "fst (getPlaylistData (snd (toggleSongSelection sid (snd ?t1)))) =
       ?rest @ [\<lparr>songId = sid, selected = True, order = int (length cur - 1)\<rparr>]"
    unfolding second using addSongToPlaylist_served [OF wc(1,2) sid orders] wc(3) len
    by (simp_all add: addedPlaylist_def)
  have "int (length cur - 1) \<noteq> order e"
    using k by linarith
  with t1(1,4) len ord gone t2 show ?thesis
    by simp
qed

theorem toggle_twice_moves_to_end_witness:
  "fst (getPlaylistData (snd (toggleSongSelection ''a'' sampleWorld))) =
     [entry ''b'' False 0, entry ''c'' True 1] \<and>
   fst (getPlaylistData
         (snd (toggleSongSelection ''a'' (snd (toggleSongSelection ''a'' sampleWorld))))) =
     [entry ''b'' False 0, entry ''c'' True 1, entry ''a'' True 2]"
proof -
  let ?cur = "[entry ''a'' True 0, entry ''b'' False 1, entry ''c'' True 2]"
  have served: "allServed sampleWorld"
    by (simp add: allServed_def sample_defs)
  have stored: "fst (getPlaylistData sampleWorld) = ?cur"
    by (simp add: sampleWorld_read)
  have uniq: "distinct (map songId ?cur)"
    by (simp add: entry_def)
  have found: "find (\<lambda>x. songId x = ''a'') ?cur = Some (entry ''a'' True 0)"
    by (simp add: entry_def)
  have sel: "selected (entry ''a'' True 0)"
    by (simp add: entry_def)
  have k: "order (entry ''a'' True 0) < int (length ?cur) - 1"
    by (simp add: entry_def)
  have "removedPlaylist ''a'' ?cur = [entry ''b'' False 0, entry ''c'' True 1]"
    by (simp add: removedPlaylist_def entry_def)
  then show ?thesis
    using toggle_twice_moves_to_end [OF sampleWorld_ready served stored uniq found sel k]
    by (simp add: entry_def)
qed

end
